theory Spec2Isabelle
  imports Main "HOL-Library.Word"
begin

unbundle bit_operations_syntax

section \<open>Static lookup tables of \<^verbatim>\<open>globals.c\<close>\<close>

subsection \<open>The population-count table\<close>

text \<open>
  \<^verbatim>\<open>int bit_count[256] = { 0,1,1,2, ... }\<close> (globals.c, lines 58 to 67), one row of the
  list per row of the initialiser.
\<close>

definition bit_count :: "int list" where
  "bit_count =
    [0,1,1,2,1,2,2,3,1,2,2,3,2,3,3,4,1,2,2,3,2,3,3,4,2,3,3,4,3,4,4,5,
     1,2,2,3,2,3,3,4,2,3,3,4,3,4,4,5,2,3,3,4,3,4,4,5,3,4,4,5,4,5,5,6,
     1,2,2,3,2,3,3,4,2,3,3,4,3,4,4,5,2,3,3,4,3,4,4,5,3,4,4,5,4,5,5,6,
     2,3,3,4,3,4,4,5,3,4,4,5,4,5,5,6,3,4,4,5,4,5,5,6,4,5,5,6,5,6,6,7,
     1,2,2,3,2,3,3,4,2,3,3,4,3,4,4,5,2,3,3,4,3,4,4,5,3,4,4,5,4,5,5,6,
     2,3,3,4,3,4,4,5,3,4,4,5,4,5,5,6,3,4,4,5,4,5,5,6,4,5,5,6,5,6,6,7,
     2,3,3,4,3,4,4,5,3,4,4,5,4,5,5,6,3,4,4,5,4,5,5,6,4,5,5,6,5,6,6,7,
     3,4,4,5,4,5,5,6,4,5,5,6,5,6,6,7,4,5,5,6,5,6,6,7,5,6,6,7,6,7,7,8]"

subsection \<open>The flag registry\<close>

text \<open>
  The masks \<^verbatim>\<open>F_type\<close>, \<^verbatim>\<open>R_type\<close>, ... are macros of espresso.h, which is
  missing; the table is read with the twelve macros it mentions as parameters. A mask
  is an \<^verbatim>\<open>int\<close> used bitwise: a 32-bit word.
\<close>

record pla_type_macros =
  F_type :: "32 word"
  R_type :: "32 word"
  D_type :: "32 word"
  FD_type :: "32 word"
  FR_type :: "32 word"
  DR_type :: "32 word"
  FDR_type :: "32 word"
  PLEASURE_type :: "32 word"
  EQNTOTT_type :: "32 word"
  KISS_type :: "32 word"
  CONSTRAINTS_type :: "32 word"
  SYMBOLIC_CONSTRAINTS_type :: "32 word"

text \<open>
  An entry of \<^verbatim>\<open>struct pla_types_struct pla_types[]\<close>: the key, a \<^verbatim>\<open>char *\<close> that
  is a string literal (\<open>Some\<close>) or the constant \<^verbatim>\<open>0\<close>, the null pointer (\<open>None\<close>), and
  the mask.
\<close>

type_synonym pla_types_struct = "string option \<times> 32 word"

definition pla_types :: "pla_type_macros \<Rightarrow> pla_types_struct list" where
  "pla_types h =
    [(Some ''-f'', F_type h),
     (Some ''-r'', R_type h),
     (Some ''-d'', D_type h),
     (Some ''-fd'', FD_type h),
     (Some ''-fr'', FR_type h),
     (Some ''-dr'', DR_type h),
     (Some ''-fdr'', FDR_type h),
     (Some ''-fc'', F_type h OR CONSTRAINTS_type h),
     (Some ''-rc'', R_type h OR CONSTRAINTS_type h),
     (Some ''-dc'', D_type h OR CONSTRAINTS_type h),
     (Some ''-fdc'', FD_type h OR CONSTRAINTS_type h),
     (Some ''-frc'', FR_type h OR CONSTRAINTS_type h),
     (Some ''-drc'', DR_type h OR CONSTRAINTS_type h),
     (Some ''-fdrc'', FDR_type h OR CONSTRAINTS_type h),
     (Some ''-pleasure'', PLEASURE_type h),
     (Some ''-eqn'', EQNTOTT_type h),
     (Some ''-eqntott'', EQNTOTT_type h),
     (Some ''-kiss'', KISS_type h),
     (Some ''-cons'', CONSTRAINTS_type h),
     (Some ''-scons'', SYMBOLIC_CONSTRAINTS_type h),
     (None, 0)]"

text \<open>
  Modelled from the spec: the definitions of the combined macros \<^verbatim>\<open>FD_type\<close>,
  \<^verbatim>\<open>FR_type\<close>, \<^verbatim>\<open>DR_type\<close> and \<^verbatim>\<open>FDR_type\<close> are in espresso.h, which is missing.
  Section 3 says that masks for compound tokens are the bitwise OR of elementary type
  masks, and that a token combining three elementary type letters carries the OR of
  their three bit values: the four combined macros are the ORs of their letters' macros.
\<close>

definition compound_types_ok :: "pla_type_macros \<Rightarrow> bool" where
  "compound_types_ok h \<longleftrightarrow>
     FD_type h = F_type h OR D_type h
   \<and> FR_type h = F_type h OR R_type h
   \<and> DR_type h = D_type h OR R_type h
   \<and> FDR_type h = F_type h OR D_type h OR R_type h"

text \<open>
  One assignment of masks that meets this condition, on which the definitions are run.
\<close>

definition sample_macros :: pla_type_macros where
  "sample_macros =
    \<lparr>F_type = 1, R_type = 4, D_type = 2, FD_type = 3, FR_type = 5, DR_type = 6,
     FDR_type = 7, PLEASURE_type = 8, EQNTOTT_type = 16, KISS_type = 128,
     CONSTRAINTS_type = 256, SYMBOLIC_CONSTRAINTS_type = 512\<rparr>"

text \<open>
  The specification's reading of a compound token: a dash followed by two or more of the
  elementary type letters \<open>f\<close>, \<open>d\<close>, \<open>r\<close>, \<open>c\<close>; its constituent masks are those of
  its letters.
\<close>

definition letter_mask :: "pla_type_macros \<Rightarrow> char \<Rightarrow> 32 word" where
  "letter_mask h x =
    (if x = CHR ''f'' then F_type h
     else if x = CHR ''d'' then D_type h
     else if x = CHR ''r'' then R_type h
     else if x = CHR ''c'' then CONSTRAINTS_type h
     else 0)"

definition is_compound :: "string \<Rightarrow> bool" where
  "is_compound token \<longleftrightarrow>
     (case token of
        [] \<Rightarrow> False
      | x # letters \<Rightarrow> x = CHR ''-'' \<and> 2 \<le> length letters
          \<and> list_all (\<lambda>l. l \<in> set ''fdrc'') letters)"

definition letters_mask :: "pla_type_macros \<Rightarrow> string \<Rightarrow> 32 word" where
  "letters_mask h token = foldr (\<lambda>l m. letter_mask h l OR m) (tl token) 0"

text \<open>
  Modelled from the spec: the routine that looks a token up in \<^verbatim>\<open>pla_types\<close> is
  missing (only the table is in globals.c). Section 4.3: given a token, scan the ordered
  sequence from the start; return the first pair whose token matches exactly
  (case-sensitive, full string match); if the sentinel is reached first, report
  "token not recognized". The miss is the result \<open>None\<close>. The first equation (a table
  without sentinel) is never reached on \<open>pla_types\<close>.
\<close>

fun registry_scan :: "pla_types_struct list \<Rightarrow> string \<Rightarrow> (string \<times> 32 word) option" where
  "registry_scan [] token = None"
| "registry_scan ((None, m) # rest) token = None"
| "registry_scan ((Some k, m) # rest) token =
     (if k = token then Some (k, m) else registry_scan rest token)"

text \<open>
  Modelled from the spec: the flag-registry lookup is that scan over \<^verbatim>\<open>pla_types\<close>.
\<close>

definition registry_lookup :: "pla_type_macros \<Rightarrow> string \<Rightarrow> (string \<times> 32 word) option" where
  "registry_lookup h token = registry_scan (pla_types h) token"

section \<open>Thread-local state of \<^verbatim>\<open>globals.c\<close>\<close>

text \<open>
  Every \<^verbatim>\<open>_Thread_local\<close> object of globals.c exists once per thread. The objects are
  named by one constructor each, in the order of their declarations (lines 7 to 28, 55
  and 56); an address is a thread together with one of these names.
\<close>

type_synonym tid = nat

datatype tl_var =
    debug | verbose_debug | total_name | total_time | total_calls
  | echo_comments | echo_unknown_commands | force_irredundant | skip_make_sparse
  | kiss | pos | print_solution | recompute_onset | remove_essential | single_expand
  | summary | trace | unwrap_onset | use_random_order | use_super_gasp | filename
  | cube | temp_cube_save | cdata | temp_cdata_save

type_synonym ptr = "tid \<times> tl_var"

text \<open>
  The contents of an object, by C type: \<^verbatim>\<open>unsigned int\<close> (32 bits), \<^verbatim>\<open>bool\<close>,
  \<^verbatim>\<open>char *\<close> (\<open>None\<close> is the null pointer), the three arrays of length
  \<^verbatim>\<open>TIME_COUNT\<close> (\<^verbatim>\<open>char *\<close>, \<^verbatim>\<open>long\<close> as 64 bits, \<^verbatim>\<open>int\<close> as 32 bits), and the two
  structures. \<^verbatim>\<open>struct cube_struct\<close> and \<^verbatim>\<open>struct cdata_struct\<close> are declared in
  espresso.h, which is missing: they are the type parameters \<open>'c\<close> and \<open>'d\<close>.
\<close>

datatype ('c, 'd) val =
    UInt "32 word"
  | Bool bool
  | CharPtr "string option"
  | CharPtrArr "string option list"
  | LongArr "64 word list"
  | IntArr "32 word list"
  | CubeStruct 'c
  | CdataStruct 'd

type_synonym ('c, 'd) memory = "tid \<Rightarrow> tl_var \<Rightarrow> ('c, 'd) val"

definition load :: "('c, 'd) memory \<Rightarrow> ptr \<Rightarrow> ('c, 'd) val" where
  "load s p = s (fst p) (snd p)"

definition store :: "('c, 'd) memory \<Rightarrow> ptr \<Rightarrow> ('c, 'd) val \<Rightarrow> ('c, 'd) memory" where
  "store s p v = s(fst p := (s (fst p))(snd p := v))"

text \<open>
  None of the declarations has an initialiser, so each object starts zero-initialised in
  every thread. \<^verbatim>\<open>TIME_COUNT\<close> and the all-zero values of the two structures come from
  espresso.h and are parameters (\<open>n\<close>, \<open>c0\<close>, \<open>d0\<close>).
\<close>

fun zero_init :: "nat \<Rightarrow> 'c \<Rightarrow> 'd \<Rightarrow> tl_var \<Rightarrow> ('c, 'd) val" where
  "zero_init n c0 d0 debug = UInt 0"
| "zero_init n c0 d0 verbose_debug = Bool False"
| "zero_init n c0 d0 total_name = CharPtrArr (replicate n None)"
| "zero_init n c0 d0 total_time = LongArr (replicate n 0)"
| "zero_init n c0 d0 total_calls = IntArr (replicate n 0)"
| "zero_init n c0 d0 echo_comments = Bool False"
| "zero_init n c0 d0 echo_unknown_commands = Bool False"
| "zero_init n c0 d0 force_irredundant = Bool False"
| "zero_init n c0 d0 skip_make_sparse = Bool False"
| "zero_init n c0 d0 kiss = Bool False"
| "zero_init n c0 d0 pos = Bool False"
| "zero_init n c0 d0 print_solution = Bool False"
| "zero_init n c0 d0 recompute_onset = Bool False"
| "zero_init n c0 d0 remove_essential = Bool False"
| "zero_init n c0 d0 single_expand = Bool False"
| "zero_init n c0 d0 summary = Bool False"
| "zero_init n c0 d0 trace = Bool False"
| "zero_init n c0 d0 unwrap_onset = Bool False"
| "zero_init n c0 d0 use_random_order = Bool False"
| "zero_init n c0 d0 use_super_gasp = Bool False"
| "zero_init n c0 d0 filename = CharPtr None"
| "zero_init n c0 d0 cube = CubeStruct c0"
| "zero_init n c0 d0 temp_cube_save = CubeStruct c0"
| "zero_init n c0 d0 cdata = CdataStruct d0"
| "zero_init n c0 d0 temp_cdata_save = CdataStruct d0"

text \<open>Starting thread \<open>t\<close> gives it a block of its own, zero-initialised.\<close>

definition thread_start ::
    "nat \<Rightarrow> 'c \<Rightarrow> 'd \<Rightarrow> tid \<Rightarrow> ('c, 'd) memory \<Rightarrow> ('c, 'd) memory" where
  "thread_start n c0 d0 t s = s(t := zero_init n c0 d0)"

subsection \<open>The accessors of \<^verbatim>\<open>thread_local_accessors.c\<close>\<close>

text \<open>
  Each accessor runs on some thread; the calling thread is the first argument. A getter
  returns the address of the calling thread's object (\<^verbatim>\<open>return &cube;\<close>), a setter
  assigns to it (\<^verbatim>\<open>debug = value;\<close>).
\<close>

definition get_cube :: "tid \<Rightarrow> ptr" where
  "get_cube t = (t, cube)"

definition get_cdata :: "tid \<Rightarrow> ptr" where
  "get_cdata t = (t, cdata)"

definition get_debug_ptr :: "tid \<Rightarrow> ptr" where
  "get_debug_ptr t = (t, debug)"

definition set_debug :: "tid \<Rightarrow> 32 word \<Rightarrow> ('c, 'd) memory \<Rightarrow> ('c, 'd) memory" where
  "set_debug t v s = store s (t, debug) (UInt v)"

definition get_verbose_debug_ptr :: "tid \<Rightarrow> ptr" where
  "get_verbose_debug_ptr t = (t, verbose_debug)"

definition set_verbose_debug :: "tid \<Rightarrow> bool \<Rightarrow> ('c, 'd) memory \<Rightarrow> ('c, 'd) memory" where
  "set_verbose_debug t v s = store s (t, verbose_debug) (Bool v)"

definition get_trace_ptr :: "tid \<Rightarrow> ptr" where
  "get_trace_ptr t = (t, trace)"

definition set_trace :: "tid \<Rightarrow> bool \<Rightarrow> ('c, 'd) memory \<Rightarrow> ('c, 'd) memory" where
  "set_trace t v s = store s (t, trace) (Bool v)"

definition get_summary_ptr :: "tid \<Rightarrow> ptr" where
  "get_summary_ptr t = (t, summary)"

definition set_summary :: "tid \<Rightarrow> bool \<Rightarrow> ('c, 'd) memory \<Rightarrow> ('c, 'd) memory" where
  "set_summary t v s = store s (t, summary) (Bool v)"

definition get_remove_essential_ptr :: "tid \<Rightarrow> ptr" where
  "get_remove_essential_ptr t = (t, remove_essential)"

definition set_remove_essential :: "tid \<Rightarrow> bool \<Rightarrow> ('c, 'd) memory \<Rightarrow> ('c, 'd) memory" where
  "set_remove_essential t v s = store s (t, remove_essential) (Bool v)"

definition get_force_irredundant_ptr :: "tid \<Rightarrow> ptr" where
  "get_force_irredundant_ptr t = (t, force_irredundant)"

definition set_force_irredundant :: "tid \<Rightarrow> bool \<Rightarrow> ('c, 'd) memory \<Rightarrow> ('c, 'd) memory" where
  "set_force_irredundant t v s = store s (t, force_irredundant) (Bool v)"

definition get_unwrap_onset_ptr :: "tid \<Rightarrow> ptr" where
  "get_unwrap_onset_ptr t = (t, unwrap_onset)"

definition set_unwrap_onset :: "tid \<Rightarrow> bool \<Rightarrow> ('c, 'd) memory \<Rightarrow> ('c, 'd) memory" where
  "set_unwrap_onset t v s = store s (t, unwrap_onset) (Bool v)"

definition get_single_expand_ptr :: "tid \<Rightarrow> ptr" where
  "get_single_expand_ptr t = (t, single_expand)"

definition set_single_expand :: "tid \<Rightarrow> bool \<Rightarrow> ('c, 'd) memory \<Rightarrow> ('c, 'd) memory" where
  "set_single_expand t v s = store s (t, single_expand) (Bool v)"

definition get_use_super_gasp_ptr :: "tid \<Rightarrow> ptr" where
  "get_use_super_gasp_ptr t = (t, use_super_gasp)"

definition set_use_super_gasp :: "tid \<Rightarrow> bool \<Rightarrow> ('c, 'd) memory \<Rightarrow> ('c, 'd) memory" where
  "set_use_super_gasp t v s = store s (t, use_super_gasp) (Bool v)"

definition get_use_random_order_ptr :: "tid \<Rightarrow> ptr" where
  "get_use_random_order_ptr t = (t, use_random_order)"

definition set_use_random_order :: "tid \<Rightarrow> bool \<Rightarrow> ('c, 'd) memory \<Rightarrow> ('c, 'd) memory" where
  "set_use_random_order t v s = store s (t, use_random_order) (Bool v)"

definition get_skip_make_sparse_ptr :: "tid \<Rightarrow> ptr" where
  "get_skip_make_sparse_ptr t = (t, skip_make_sparse)"

definition set_skip_make_sparse :: "tid \<Rightarrow> bool \<Rightarrow> ('c, 'd) memory \<Rightarrow> ('c, 'd) memory" where
  "set_skip_make_sparse t v s = store s (t, skip_make_sparse) (Bool v)"

subsection \<open>Callers of the accessors\<close>

text \<open>
  What a thread can do to the state through this layer: call one of the eleven setters,
  or write a value of the right type through the pointer that one of the thirteen
  getters returns to it. A schedule is a list of such steps, each tagged with the thread
  that runs it, in the order in which they take effect.
\<close>

datatype flag_getter =
    Get_verbose_debug_ptr
  | Get_trace_ptr
  | Get_summary_ptr
  | Get_remove_essential_ptr
  | Get_force_irredundant_ptr
  | Get_unwrap_onset_ptr
  | Get_single_expand_ptr
  | Get_use_super_gasp_ptr
  | Get_use_random_order_ptr
  | Get_skip_make_sparse_ptr

datatype ('c, 'd) call =
    Set_debug "32 word"
  | Set_verbose_debug bool
  | Set_trace bool
  | Set_summary bool
  | Set_remove_essential bool
  | Set_force_irredundant bool
  | Set_unwrap_onset bool
  | Set_single_expand bool
  | Set_use_super_gasp bool
  | Set_use_random_order bool
  | Set_skip_make_sparse bool
  | Write_cube 'c
  | Write_cdata 'd
  | Write_debug "32 word"
  | Write_flag flag_getter bool

fun call_flag_getter :: "flag_getter \<Rightarrow> tid \<Rightarrow> ptr" where
  "call_flag_getter Get_verbose_debug_ptr t = get_verbose_debug_ptr t"
| "call_flag_getter Get_trace_ptr t = get_trace_ptr t"
| "call_flag_getter Get_summary_ptr t = get_summary_ptr t"
| "call_flag_getter Get_remove_essential_ptr t = get_remove_essential_ptr t"
| "call_flag_getter Get_force_irredundant_ptr t = get_force_irredundant_ptr t"
| "call_flag_getter Get_unwrap_onset_ptr t = get_unwrap_onset_ptr t"
| "call_flag_getter Get_single_expand_ptr t = get_single_expand_ptr t"
| "call_flag_getter Get_use_super_gasp_ptr t = get_use_super_gasp_ptr t"
| "call_flag_getter Get_use_random_order_ptr t = get_use_random_order_ptr t"
| "call_flag_getter Get_skip_make_sparse_ptr t = get_skip_make_sparse_ptr t"

fun exec :: "tid \<Rightarrow> ('c, 'd) call \<Rightarrow> ('c, 'd) memory \<Rightarrow> ('c, 'd) memory" where
  "exec t (Set_debug v) s = set_debug t v s"
| "exec t (Set_verbose_debug v) s = set_verbose_debug t v s"
| "exec t (Set_trace v) s = set_trace t v s"
| "exec t (Set_summary v) s = set_summary t v s"
| "exec t (Set_remove_essential v) s = set_remove_essential t v s"
| "exec t (Set_force_irredundant v) s = set_force_irredundant t v s"
| "exec t (Set_unwrap_onset v) s = set_unwrap_onset t v s"
| "exec t (Set_single_expand v) s = set_single_expand t v s"
| "exec t (Set_use_super_gasp v) s = set_use_super_gasp t v s"
| "exec t (Set_use_random_order v) s = set_use_random_order t v s"
| "exec t (Set_skip_make_sparse v) s = set_skip_make_sparse t v s"
| "exec t (Write_cube v) s = store s (get_cube t) (CubeStruct v)"
| "exec t (Write_cdata v) s = store s (get_cdata t) (CdataStruct v)"
| "exec t (Write_debug v) s = store s (get_debug_ptr t) (UInt v)"
| "exec t (Write_flag g v) s = store s (call_flag_getter g t) (Bool v)"

fun run :: "(tid \<times> ('c, 'd) call) list \<Rightarrow> ('c, 'd) memory \<Rightarrow> ('c, 'd) memory" where
  "run [] s = s"
| "run ((t, c) # rest) s = run rest (exec t c s)"

section \<open>Specification-side definitions\<close>

subsection \<open>Population count of a byte\<close>

text \<open>
  The specification's side of the table: the number of set bits of a byte, counted bit by
  bit over the eight positions.
\<close>

definition set_bits :: "8 word \<Rightarrow> nat" where
  "set_bits v = length (filter (bit v) [0..<8])"

text \<open>
  The regularity behind the initialiser: the table for \<open>k + 1\<close> bits is the table for
  \<open>k\<close> bits followed by a copy with every entry one larger (the copy covers the values
  whose bit \<open>k\<close> is set).
\<close>

fun doubling_table :: "nat \<Rightarrow> int list" where
  "doubling_table 0 = [0]"
| "doubling_table (Suc k) = doubling_table k @ map (\<lambda>c. c + 1) (doubling_table k)"

section \<open>The population-count table\<close>

lemma set_bits_card: "set_bits v = card {n. bit v n}"
proof -
  have "{n. bit v n} = set (filter (bit v) [0..<8])"
    by (auto dest: bit_imp_le_length)
  moreover have "distinct (filter (bit v) [0..<8])"
    by (rule distinct_filter) (rule distinct_upt)
  ultimately show ?thesis
    unfolding set_bits_def by (simp only: distinct_card)
qed

lemma bit_count_doubling: "bit_count = doubling_table 8"
  by (simp add: bit_count_def eval_nat_numeral)

lemma length_doubling_table: "length (doubling_table k) = 2 ^ k"
  by (induction k) simp_all

lemma bit_below_power:
  assumes "n < 2 ^ k" "k \<le> i"
  shows "\<not> bit (n::nat) i"
proof -
  have "n < 2 ^ i" using assms
    by (meson le_less_trans not_le power_increasing_iff[of 2 k i] less_le_trans one_less_numeral_iff semiring_norm(76))
  then show ?thesis by (simp add: bit_iff_odd)
qed

lemma bit_add_power:
  assumes "i < k"
  shows "bit (m + 2 ^ k :: nat) i = bit m i"
proof -
  obtain d where k: "k = i + Suc d" using assms less_iff_Suc_add by auto
  have "(m + 2 ^ k) div 2 ^ i = m div 2 ^ i + 2 ^ Suc d"
  proof -
    have "(2::nat) ^ k = 2 ^ i * 2 ^ Suc d" by (simp only: k power_add)
    then show ?thesis by (simp only: div_mult_self2[of "2 ^ i" m "2 ^ Suc d"] power_not_zero[of 2 i] zero_neq_numeral not_False_eq_True)
  qed
  then show ?thesis by (simp add: bit_iff_odd)
qed

lemma bit_top_power:
  assumes "m < 2 ^ k"
  shows "bit (m + 2 ^ k :: nat) k"
  using assms by (simp add: bit_iff_odd div_add_self2)

lemma doubling_table_nth:
  "n < 2 ^ k \<Longrightarrow> doubling_table k ! n = int (length (filter (bit n) [0..<k]))"
proof (induction k arbitrary: n)
  case 0
  then show ?case by simp
next
  case (Suc k)
  show ?case
  proof (cases "n < 2 ^ k")
    case True
    then have "\<not> bit n k" by (rule bit_below_power) simp
    with True show ?thesis
      by (simp add: nth_append length_doubling_table Suc.IH)
  next
    case False
    define m where "m = n - 2 ^ k"
    from False Suc.prems have m: "m < 2 ^ k" and n: "n = m + 2 ^ k"
      by (simp_all add: m_def)
    have "filter (bit n) [0..<k] = filter (bit m) [0..<k]"
      by (rule filter_cong) (simp_all add: n bit_add_power)
    moreover have "bit n k" unfolding n using m by (rule bit_top_power)
    ultimately show ?thesis using False m
      by (simp add: nth_append length_doubling_table Suc.IH m_def)
  qed
qed

lemma set_bits_unat: "set_bits v = length (filter (bit (unat v)) [0..<8])"
proof -
  have "filter (bit v) [0..<8] = filter (bit (unat v)) [0..<8]"
    by (rule filter_cong) (simp_all add: bit_unsigned_iff bit_imp_le_length del: upt_Suc)
  then show ?thesis
    unfolding set_bits_def by (simp only:)
qed

lemma bit_count_nth_byte: "bit_count ! unat (v :: 8 word) = int (set_bits v)"
proof -
  have "unat v < 2 ^ 8"
    using unsigned_less[of v] by simp
  then show ?thesis
    by (simp only: bit_count_doubling doubling_table_nth set_bits_unat)
qed

text \<open>
  Claim C1. For every byte value \<open>v\<close> (0 to 255) the entry of the 256-entry table
  \<open>bit_count\<close> at index \<open>v\<close> is the number of set bits of \<open>v\<close>; entry 255 is 8,
  entry 0 is 0 and entry 170 is 4.
\<close>

theorem bit_count_is_population_count:
  "length bit_count = 256
   \<and> bit_count ! unat (v :: 8 word) = int (set_bits v)
   \<and> set_bits v = card {n. bit v n}
   \<and> bit_count ! 255 = 8 \<and> bit_count ! 0 = 0 \<and> bit_count ! 170 = 4"
proof -
  have "length bit_count = 256"
    by (simp only: bit_count_doubling length_doubling_table) simp
  moreover have "bit_count ! 255 = 8" "bit_count ! 0 = 0" "bit_count ! 170 = 4"
    by (simp_all add: bit_count_def)
  ultimately show ?thesis
    by (simp only: bit_count_nth_byte set_bits_card [symmetric])
qed

section \<open>The flag registry\<close>

lemma sample_macros_ok: "compound_types_ok sample_macros"
  by (simp add: compound_types_ok_def sample_macros_def)

lemma registry_scan_hit:
  "registry_scan tbl token = Some (k, m) \<longleftrightarrow>
     k = token \<and> (\<exists>pre post. tbl = pre @ (Some token, m) # post
        \<and> (\<forall>e \<in> set pre. fst e \<noteq> None \<and> fst e \<noteq> Some token))"
proof (induction tbl token rule: registry_scan.induct)
  case (1 token)
  then show ?case by simp
next
  case (2 m' rest token)
  show ?case
  proof
    assume "registry_scan ((None, m') # rest) token = Some (k, m)"
    then show "k = token \<and> (\<exists>pre post. (None, m') # rest = pre @ (Some token, m) # post
        \<and> (\<forall>e \<in> set pre. fst e \<noteq> None \<and> fst e \<noteq> Some token))"
      by simp
  next
    assume r: "k = token \<and> (\<exists>pre post. (None, m') # rest = pre @ (Some token, m) # post
        \<and> (\<forall>e \<in> set pre. fst e \<noteq> None \<and> fst e \<noteq> Some token))"
    then obtain pre post where eq: "(None, m') # rest = pre @ (Some token, m) # post"
      and pre: "\<forall>e \<in> set pre. fst e \<noteq> None \<and> fst e \<noteq> Some token"
      by blast
    show "registry_scan ((None, m') # rest) token = Some (k, m)"
    proof (cases pre)
      case Nil
      with eq show ?thesis by simp
    next
      case (Cons e pre')
      with eq have "e = (None, m')" by simp
      with pre Cons show ?thesis by simp
    qed
  qed
next
  case (3 k' m' rest token)
  show ?case
  proof (cases "k' = token")
    case True
    have "(\<exists>pre post. (Some k', m') # rest = pre @ (Some token, m) # post
        \<and> (\<forall>e \<in> set pre. fst e \<noteq> None \<and> fst e \<noteq> Some token)) \<longleftrightarrow> m' = m"
    proof
      assume "\<exists>pre post. (Some k', m') # rest = pre @ (Some token, m) # post
        \<and> (\<forall>e \<in> set pre. fst e \<noteq> None \<and> fst e \<noteq> Some token)"
      then obtain pre post where eq: "(Some k', m') # rest = pre @ (Some token, m) # post"
        and pre: "\<forall>e \<in> set pre. fst e \<noteq> None \<and> fst e \<noteq> Some token"
        by blast
      show "m' = m"
      proof (cases pre)
        case Nil
        with eq show ?thesis by simp
      next
        case (Cons e pre')
        with eq have "e = (Some k', m')" by simp
        with pre Cons True show ?thesis by simp
      qed
    next
      assume "m' = m"
      then have "(Some k', m') # rest = [] @ (Some token, m) # rest" using True by simp
      then show "\<exists>pre post. (Some k', m') # rest = pre @ (Some token, m) # post
        \<and> (\<forall>e \<in> set pre. fst e \<noteq> None \<and> fst e \<noteq> Some token)"
        by (intro exI [of _ "[]"] exI [of _ rest]) simp
    qed
    with True show ?thesis by auto
  next
    case False
    have "(\<exists>pre post. (Some k', m') # rest = pre @ (Some token, m) # post
        \<and> (\<forall>e \<in> set pre. fst e \<noteq> None \<and> fst e \<noteq> Some token))
      \<longleftrightarrow> (\<exists>pre post. rest = pre @ (Some token, m) # post
        \<and> (\<forall>e \<in> set pre. fst e \<noteq> None \<and> fst e \<noteq> Some token))"
    proof
      assume "\<exists>pre post. (Some k', m') # rest = pre @ (Some token, m) # post
        \<and> (\<forall>e \<in> set pre. fst e \<noteq> None \<and> fst e \<noteq> Some token)"
      then obtain pre post where eq: "(Some k', m') # rest = pre @ (Some token, m) # post"
        and pre: "\<forall>e \<in> set pre. fst e \<noteq> None \<and> fst e \<noteq> Some token"
        by blast
      show "\<exists>pre post. rest = pre @ (Some token, m) # post
        \<and> (\<forall>e \<in> set pre. fst e \<noteq> None \<and> fst e \<noteq> Some token)"
      proof (cases pre)
        case Nil
        with eq False show ?thesis by simp
      next
        case (Cons e pre')
        with eq have "rest = pre' @ (Some token, m) # post" by simp
        moreover from pre Cons have "\<forall>e \<in> set pre'. fst e \<noteq> None \<and> fst e \<noteq> Some token"
          by simp
        ultimately show ?thesis by blast
      qed
    next
      assume "\<exists>pre post. rest = pre @ (Some token, m) # post
        \<and> (\<forall>e \<in> set pre. fst e \<noteq> None \<and> fst e \<noteq> Some token)"
      then obtain pre post where eq: "rest = pre @ (Some token, m) # post"
        and pre: "\<forall>e \<in> set pre. fst e \<noteq> None \<and> fst e \<noteq> Some token"
        by blast
      from eq have "(Some k', m') # rest = ((Some k', m') # pre) @ (Some token, m) # post"
        by simp
      moreover from pre False
      have "\<forall>e \<in> set ((Some k', m') # pre). fst e \<noteq> None \<and> fst e \<noteq> Some token"
        by simp
      ultimately show "\<exists>pre post. (Some k', m') # rest = pre @ (Some token, m) # post
        \<and> (\<forall>e \<in> set pre. fst e \<noteq> None \<and> fst e \<noteq> Some token)"
        by blast
    qed
    with False 3 show ?thesis by simp
  qed
qed

lemma registry_scan_miss:
  "None \<notin> fst ` set entries \<Longrightarrow>
     registry_scan (entries @ [(None, z)]) token = None \<longleftrightarrow> Some token \<notin> fst ` set entries"
proof (induction entries)
  case Nil
  then show ?case by simp
next
  case (Cons e entries)
  obtain k m where e: "e = (k, m)" by (cases e)
  with Cons.prems obtain k' where k: "k = Some k'" by (cases k) auto
  from Cons show ?case by (auto simp: e k)
qed

lemma pla_types_sentinel:
  "pla_types h = butlast (pla_types h) @ [(None, 0)]"
  by (simp add: pla_types_def)

lemma pla_types_keys:
  "map fst (pla_types h) =
    [Some ''-f'', Some ''-r'', Some ''-d'', Some ''-fd'', Some ''-fr'', Some ''-dr'',
     Some ''-fdr'', Some ''-fc'', Some ''-rc'', Some ''-dc'', Some ''-fdc'', Some ''-frc'',
     Some ''-drc'', Some ''-fdrc'', Some ''-pleasure'', Some ''-eqn'', Some ''-eqntott'',
     Some ''-kiss'', Some ''-cons'', Some ''-scons'', None]"
  by (simp add: pla_types_def)

lemma butlast_keys_not_null: "None \<notin> fst ` set (butlast (pla_types h))"
  by (simp add: pla_types_def)

lemma registry_lookup_miss:
  "registry_lookup h token = None \<longleftrightarrow> Some token \<notin> fst ` set (pla_types h)"
proof -
  have "registry_lookup h token = None \<longleftrightarrow> Some token \<notin> fst ` set (butlast (pla_types h))"
    unfolding registry_lookup_def
    using registry_scan_miss [OF butlast_keys_not_null, of h 0 token] pla_types_sentinel [of h]
    by simp
  also have "\<dots> \<longleftrightarrow> Some token \<notin> fst ` set (pla_types h)"
    by (subst (2) pla_types_sentinel) (simp del: butlast.simps)
  finally show ?thesis .
qed

text \<open>
  What the table gives without any knowledge of espresso.h: the mask stored for each
  "with constraints" token is the mask stored for the token without the \<open>c\<close>, ORed with
  \<^verbatim>\<open>CONSTRAINTS_type\<close>.
\<close>

lemma with_constraints_masks:
  "map (\<lambda>x. map_of (pla_types h) (Some (x @ ''c'')))
       [''-f'', ''-r'', ''-d'', ''-fd'', ''-fr'', ''-dr'', ''-fdr'']
   = map (\<lambda>x. map_option (\<lambda>m. m OR CONSTRAINTS_type h) (map_of (pla_types h) (Some x)))
       [''-f'', ''-r'', ''-d'', ''-fd'', ''-fr'', ''-dr'', ''-fdr'']"
  by (simp add: pla_types_def)

text \<open>
  Claim C2. For every compound token stored in the flag registry, its stored mask is the
  bitwise OR of the masks of its constituent elementary types; in particular the mask
  stored for \<open>-fdrc\<close> is the OR of the FD, R and CONSTRAINTS masks. The expansion of
  the combined macros is the assumption \<open>compound_types_ok\<close>; no token is stored
  twice, so "the" stored mask is well defined.
\<close>

theorem compound_token_masks:
  "compound_types_ok h \<Longrightarrow>
     (\<forall>(k, m) \<in> set (pla_types h).
        \<forall>token. k = Some token \<and> is_compound token \<longrightarrow> m = letters_mask h token)
     \<and> (Some ''-fdrc'', FD_type h OR R_type h OR CONSTRAINTS_type h) \<in> set (pla_types h)
     \<and> distinct (map fst (pla_types h))"
  by (simp add: compound_types_ok_def pla_types_def is_compound_def letters_mask_def
      letter_mask_def ac_simps)

text \<open>
  Claim C2 on concrete masks: \<open>-fdrc\<close> is stored with 263 = 1 OR 2 OR 4 OR 256.
\<close>

theorem compound_token_masks_witness:
  "compound_types_ok sample_macros
   \<and> (Some ''-fdrc'', 263) \<in> set (pla_types sample_macros)
   \<and> is_compound ''-fdrc'' \<and> letters_mask sample_macros ''-fdrc'' = 263
   \<and> FD_type sample_macros OR R_type sample_macros OR CONSTRAINTS_type sample_macros = 263"
proof -
  have ok: "compound_types_ok sample_macros"
    by (simp add: sample_macros_ok)
  have v: "FD_type sample_macros OR R_type sample_macros OR CONSTRAINTS_type sample_macros = 263"
    by (simp add: sample_macros_def)
  have c: "is_compound ''-fdrc''"
    by (simp add: is_compound_def)
  from compound_token_masks [OF ok] v
  have m: "(Some ''-fdrc'', 263) \<in> set (pla_types sample_macros)"
    by simp
  with compound_token_masks [OF ok] c have "263 = letters_mask sample_macros ''-fdrc''"
    by blast
  with ok v c m show ?thesis by simp
qed

text \<open>
  Claim C7. Looking a token up scans the registry from the start and returns the first
  pair whose token is exactly the one asked for (everything before it is a different,
  non-null token); a token that is not in the registry, such as \<open>-zzz\<close>, runs into
  the sentinel and the lookup reports the miss as the value \<open>None\<close>. Matching is
  case-sensitive and on the whole string: \<open>-F\<close> and \<open>-eq\<close> are misses.
\<close>

theorem registry_lookup_first_match_or_miss:
  "(registry_lookup h token = Some (k, m) \<longleftrightarrow>
      k = token \<and> (\<exists>pre post. pla_types h = pre @ (Some token, m) # post
        \<and> (\<forall>e \<in> set pre. fst e \<noteq> None \<and> fst e \<noteq> Some token)))
   \<and> (registry_lookup h token = None \<longleftrightarrow> Some token \<notin> fst ` set (pla_types h))
   \<and> registry_lookup h ''-zzz'' = None
   \<and> registry_lookup h ''-F'' = None
   \<and> registry_lookup h ''-eq'' = None"
proof -
  have "registry_lookup h ''-zzz'' = None" "registry_lookup h ''-F'' = None"
    "registry_lookup h ''-eq'' = None"
    by (simp_all add: registry_lookup_def pla_types_def)
  then show ?thesis
    unfolding registry_lookup_def [of h token]
    using registry_scan_hit [of "pla_types h" token k m] registry_lookup_miss [of h token]
    by (simp only: registry_lookup_def)
qed

text \<open>
  Claim C7 on concrete masks: \<open>-fd\<close> is found behind three other tokens, and
  \<open>-zzz\<close> is a miss.
\<close>

theorem registry_lookup_first_match_or_miss_witness:
  "pla_types sample_macros =
      [(Some ''-f'', 1), (Some ''-r'', 4), (Some ''-d'', 2)] @ (Some ''-fd'', 3)
        # drop 4 (pla_types sample_macros)
   \<and> Some ''-fd'' \<notin> fst ` set [(Some ''-f'', 1 :: 32 word), (Some ''-r'', 4), (Some ''-d'', 2)]
   \<and> None \<notin> fst ` set [(Some ''-f'', 1 :: 32 word), (Some ''-r'', 4), (Some ''-d'', 2)]
   \<and> registry_lookup sample_macros ''-fd'' = Some (''-fd'', 3)
   \<and> Some ''-zzz'' \<notin> fst ` set (pla_types sample_macros)
   \<and> registry_lookup sample_macros ''-zzz'' = None"
proof -
  let ?pre = "[(Some ''-f'', 1 :: 32 word), (Some ''-r'', 4), (Some ''-d'', 2)]"
  have split: "pla_types sample_macros =
      ?pre @ (Some ''-fd'', 3) # drop 4 (pla_types sample_macros)"
    by (simp add: pla_types_def sample_macros_def)
  have pre: "\<forall>e \<in> set ?pre. fst e \<noteq> None \<and> fst e \<noteq> Some ''-fd''"
    by simp
  from split pre
  have "\<exists>pre post. pla_types sample_macros = pre @ (Some ''-fd'', 3) # post
        \<and> (\<forall>e \<in> set pre. fst e \<noteq> None \<and> fst e \<noteq> Some ''-fd'')"
    by blast
  then have hit: "registry_lookup sample_macros ''-fd'' = Some (''-fd'', 3)"
    using registry_lookup_first_match_or_miss [of sample_macros "''-fd''" "''-fd''" 3]
    by simp
  have absent: "Some ''-zzz'' \<notin> fst ` set (pla_types sample_macros)"
    by (simp add: pla_types_def)
  then have miss: "registry_lookup sample_macros ''-zzz'' = None"
    using registry_lookup_first_match_or_miss [of sample_macros "''-zzz''"]
    by simp
  have "Some ''-fd'' \<notin> fst ` set ?pre" "None \<notin> fst ` set ?pre"
    by simp_all
  with split hit absent miss show ?thesis by (intro conjI)
qed

text \<open>
  Claim C8, as stated, fails: the token of the last pair is the null pointer
  (\<^verbatim>\<open>{0, 0}\<close>), which is not the empty string.
\<close>

theorem sentinel_token_is_not_empty_string:
  "last (pla_types sample_macros) \<noteq> (Some '''', 0)"
  by (simp add: pla_types_def)

text \<open>
  Claim C8, amended. The flag registry is an ordered sequence of 21 (token, bitmask)
  pairs terminated by a sentinel pair whose token is null and whose mask is zero; no
  other pair has a null token, and no pair has the empty string as its token.
\<close>

theorem registry_ends_in_null_sentinel:
  "pla_types h = butlast (pla_types h) @ [(None, 0)]
   \<and> length (pla_types h) = 21
   \<and> None \<notin> fst ` set (butlast (pla_types h))
   \<and> Some '''' \<notin> fst ` set (pla_types h)"
  by (simp add: pla_types_def)

text \<open>
  What the table alone says about zero masks: the entries before the sentinel all have
  nonzero masks exactly when none of the twelve macros of espresso.h is zero. Whether
  that is so is decided by espresso.h, not by globals.c.
\<close>

lemma masks_nonzero_iff_macros_nonzero:
  "(\<forall>(k, m) \<in> set (butlast (pla_types h)). m \<noteq> 0) \<longleftrightarrow>
     F_type h \<noteq> 0 \<and> R_type h \<noteq> 0 \<and> D_type h \<noteq> 0
   \<and> FD_type h \<noteq> 0 \<and> FR_type h \<noteq> 0 \<and> DR_type h \<noteq> 0 \<and> FDR_type h \<noteq> 0
   \<and> PLEASURE_type h \<noteq> 0 \<and> EQNTOTT_type h \<noteq> 0 \<and> KISS_type h \<noteq> 0
   \<and> CONSTRAINTS_type h \<noteq> 0 \<and> SYMBOLIC_CONSTRAINTS_type h \<noteq> 0"
  by (auto simp add: pla_types_def or_eq_0_iff)

section \<open>Thread-local state and its accessors\<close>

lemmas getter_defs = get_cube_def get_cdata_def get_debug_ptr_def get_verbose_debug_ptr_def get_trace_ptr_def get_summary_ptr_def get_remove_essential_ptr_def get_force_irredundant_ptr_def get_unwrap_onset_ptr_def get_single_expand_ptr_def get_use_super_gasp_ptr_def get_use_random_order_ptr_def get_skip_make_sparse_ptr_def

lemmas setter_defs = set_debug_def set_verbose_debug_def set_trace_def set_summary_def set_remove_essential_def set_force_irredundant_def set_unwrap_onset_def set_single_expand_def set_use_super_gasp_def set_use_random_order_def set_skip_make_sparse_def

lemma load_store: "load (store s p v) q = (if q = p then v else load s q)"
  by (cases p, cases q) (simp add: load_def store_def)

lemma load_thread_start: "load (thread_start n c0 d0 t s) (t, x) = zero_init n c0 d0 x"
  by (simp add: load_def thread_start_def)

lemma fst_call_flag_getter: "fst (call_flag_getter g t) = t"
  by (cases g) (simp_all add: getter_defs)

lemma exec_other_thread: "t \<noteq> u \<Longrightarrow> exec t c s u = s u"
  by (cases c) (simp_all add: setter_defs getter_defs store_def fst_call_flag_getter)

lemma exec_own_thread: "s t = s' t \<Longrightarrow> exec t c s t = exec t c s' t"
  by (cases c) (simp_all add: setter_defs getter_defs store_def fst_call_flag_getter)

lemma exec_cong_thread:
  assumes "s u = s' u"
  shows "exec t c s u = exec t c s' u"
proof (cases "t = u")
  case True
  with assms show ?thesis by (simp only: exec_own_thread [of s u s' c])
next
  case False
  with assms show ?thesis by (simp add: exec_other_thread)
qed

lemma run_cong_thread: "s u = s' u \<Longrightarrow> run sched s u = run sched s' u"
proof (induction sched arbitrary: s s')
  case Nil
  then show ?case by simp
next
  case (Cons step sched)
  obtain t c where step: "step = (t, c)" by (cases step)
  from Cons.prems have "exec t c s u = exec t c s' u"
    by (rule exec_cong_thread)
  then have "run sched (exec t c s) u = run sched (exec t c s') u"
    by (rule Cons.IH)
  then show ?case by (simp add: step)
qed

lemma run_own_steps:
  "run sched s u = run (filter (\<lambda>(t, c). t = u) sched) s u"
proof (induction sched arbitrary: s)
  case Nil
  then show ?case by simp
next
  case (Cons step sched)
  obtain t c where step: "step = (t, c)" by (cases step)
  show ?case
  proof (cases "t = u")
    case True
    with Cons.IH [of "exec t c s"] show ?thesis by (simp add: step)
  next
    case False
    then have "exec t c s u = s u" by (rule exec_other_thread)
    then have "run sched (exec t c s) u = run sched s u" by (rule run_cong_thread)
    with False Cons.IH [of s] show ?thesis by (simp add: step)
  qed
qed

text \<open>
  Claim C3. On a freshly started thread, as long as the thread itself has run no step
  (other threads may have), every boolean flag reads false (the ten exposed ones through
  their pointer getters, the other six directly), the debug level reads 0, every timing
  counter (\<^verbatim>\<open>total_time\<close>, \<^verbatim>\<open>total_calls\<close>) is zero, and the names of the timed
  functions and the filename are null.
\<close>

theorem fresh_thread_defaults:
  assumes "filter (\<lambda>(u, c). u = t) sched = []"
    and "s' = run sched (thread_start n c0 d0 t s)"
  shows "load s' (get_debug_ptr t) = UInt 0
   \<and> load s' (get_verbose_debug_ptr t) = Bool False
   \<and> load s' (get_trace_ptr t) = Bool False
   \<and> load s' (get_summary_ptr t) = Bool False
   \<and> load s' (get_remove_essential_ptr t) = Bool False
   \<and> load s' (get_force_irredundant_ptr t) = Bool False
   \<and> load s' (get_unwrap_onset_ptr t) = Bool False
   \<and> load s' (get_single_expand_ptr t) = Bool False
   \<and> load s' (get_use_super_gasp_ptr t) = Bool False
   \<and> load s' (get_use_random_order_ptr t) = Bool False
   \<and> load s' (get_skip_make_sparse_ptr t) = Bool False
   \<and> load s' (t, echo_comments) = Bool False
   \<and> load s' (t, echo_unknown_commands) = Bool False
   \<and> load s' (t, kiss) = Bool False
   \<and> load s' (t, pos) = Bool False
   \<and> load s' (t, print_solution) = Bool False
   \<and> load s' (t, recompute_onset) = Bool False
   \<and> load s' (t, total_time) = LongArr (replicate n 0)
   \<and> load s' (t, total_calls) = IntArr (replicate n 0)
   \<and> load s' (t, total_name) = CharPtrArr (replicate n None)
   \<and> load s' (t, filename) = CharPtr None"
proof -
  have "s' t = run (filter (\<lambda>(u, c). u = t) sched) (thread_start n c0 d0 t s) t"
    unfolding assms(2) by (rule run_own_steps)
  then have "s' t = zero_init n c0 d0"
    by (simp add: assms(1) thread_start_def)
  then have "load s' (t, x) = zero_init n c0 d0 x" for x
    by (simp add: load_def)
  then show ?thesis
    by (simp add: getter_defs)
qed

text \<open>
  Claim C3 on thread 1, started on a memory full of other values, while thread 0 sets
  its debug level and writes its cube descriptor.
\<close>

theorem fresh_thread_defaults_witness:
  "filter (\<lambda>(u, c). u = 1)
      [(0 :: tid, Set_debug 5), (0, Write_cube () :: (unit, unit) call)]
      = []
   \<and> load (run [(0, Set_debug 5), (0, Write_cube ())]
          (thread_start 2 () () 1 (\<lambda>u x. Bool True))) (get_debug_ptr 1) = UInt 0
   \<and> load (run [(0, Set_debug 5), (0, Write_cube ())]
          (thread_start 2 () () 1 (\<lambda>u x. Bool True))) (get_trace_ptr 1) = Bool False
   \<and> load (run [(0, Set_debug 5), (0, Write_cube ())]
          (thread_start 2 () () 1 (\<lambda>u x. Bool True))) (1, total_time) = LongArr [0, 0]
   \<and> load (run [(0, Set_debug 5), (0, Write_cube ())]
          (thread_start 2 () () 1 (\<lambda>u x. Bool True))) (1, filename) = CharPtr None"
proof -
  let ?sched = "[(0 :: tid, Set_debug 5), (0, Write_cube () :: (unit, unit) call)]"
  have f: "filter (\<lambda>(u, c). u = 1) ?sched = []"
    by simp
  have r: "replicate 2 (0 :: 64 word) = [0, 0]"
    by (simp add: numeral_2_eq_2)
  let ?m = "run ?sched (thread_start 2 () () 1 (\<lambda>u x. Bool True))"
  note d = fresh_thread_defaults [OF f refl, of 2 "()" "()" "\<lambda>u x. Bool True"]
  from d have "load ?m (get_debug_ptr 1) = UInt 0" by (elim conjE)
  moreover from d have "load ?m (get_trace_ptr 1) = Bool False" by (elim conjE)
  moreover from d have "load ?m (1, total_time) = LongArr [0, 0]"
    unfolding r by (elim conjE)
  moreover from d have "load ?m (1, filename) = CharPtr None" by (elim conjE)
  ultimately show ?thesis
    using f by (intro conjI)
qed

text \<open>
  Claim C4. For the debug level and each of the ten exposed boolean flags, calling the
  setter with a value and then reading through the pointer getter yields that value: for
  every boolean, and for every unsigned 32-bit integer, 0, 1 and 4294967295 among them.
\<close>

theorem setter_getter_round_trip:
  "load (set_debug t x s) (get_debug_ptr t) = UInt x
   \<and> load (set_verbose_debug t b s) (get_verbose_debug_ptr t) = Bool b
   \<and> load (set_trace t b s) (get_trace_ptr t) = Bool b
   \<and> load (set_summary t b s) (get_summary_ptr t) = Bool b
   \<and> load (set_remove_essential t b s) (get_remove_essential_ptr t) = Bool b
   \<and> load (set_force_irredundant t b s) (get_force_irredundant_ptr t) = Bool b
   \<and> load (set_unwrap_onset t b s) (get_unwrap_onset_ptr t) = Bool b
   \<and> load (set_single_expand t b s) (get_single_expand_ptr t) = Bool b
   \<and> load (set_use_super_gasp t b s) (get_use_super_gasp_ptr t) = Bool b
   \<and> load (set_use_random_order t b s) (get_use_random_order_ptr t) = Bool b
   \<and> load (set_skip_make_sparse t b s) (get_skip_make_sparse_ptr t) = Bool b
   \<and> load (set_debug t 0 s) (get_debug_ptr t) = UInt 0
   \<and> load (set_debug t 1 s) (get_debug_ptr t) = UInt 1
   \<and> load (set_debug t 4294967295 s) (get_debug_ptr t) = UInt 4294967295
   \<and> unat (4294967295 :: 32 word) = 4294967295"
  by (simp add: getter_defs setter_defs load_store)

text \<open>
  Claim C5. What one thread does through the accessors is invisible to every other
  thread. Two-run form: if two schedules contain the same steps of thread \<open>B\<close> and
  start from memories that agree on the block of \<open>B\<close>, they end with the same block
  of \<open>B\<close>, whatever the other threads do in either run. In particular, after thread
  \<open>A\<close> sets its debug level to 5 and its trace flag to true, a different thread
  \<open>B\<close> reads what it read before, and a freshly started \<open>B\<close> still reads 0 and
  false.
\<close>

theorem thread_isolation:
  "(filter (\<lambda>(t, c). t = B) sched1 = filter (\<lambda>(t, c). t = B) sched2 \<and> s1 B = s2 B
      \<longrightarrow> run sched1 s1 B = run sched2 s2 B)
   \<and> (A \<noteq> B \<longrightarrow>
        load (set_trace A True (set_debug A 5 s)) (get_debug_ptr B) = load s (get_debug_ptr B)
      \<and> load (set_trace A True (set_debug A 5 s)) (get_trace_ptr B) = load s (get_trace_ptr B)
      \<and> set_trace A True (set_debug A 5 s) B = s B)
   \<and> (A \<noteq> B \<longrightarrow>
        (let s0 = thread_start n c0 d0 B (thread_start n c0 d0 A s);
             s' = set_trace A True (set_debug A 5 s0)
         in load s' (get_debug_ptr B) = UInt 0 \<and> load s' (get_trace_ptr B) = Bool False
          \<and> load s' (get_debug_ptr A) = UInt 5 \<and> load s' (get_trace_ptr A) = Bool True))"
proof -
  have "run sched1 s1 B = run sched2 s2 B"
    if f: "filter (\<lambda>(t, c). t = B) sched1 = filter (\<lambda>(t, c). t = B) sched2"
      and s: "s1 B = s2 B"
  proof -
    have "run sched1 s1 B = run (filter (\<lambda>(t, c). t = B) sched1) s1 B"
      by (rule run_own_steps)
    also have "\<dots> = run (filter (\<lambda>(t, c). t = B) sched2) s2 B"
      unfolding f using s by (rule run_cong_thread)
    also have "\<dots> = run sched2 s2 B"
      by (rule run_own_steps [symmetric])
    finally show ?thesis .
  qed
  moreover have "set_trace A True (set_debug A 5 s) B = s B" if "A \<noteq> B"
    using that by (simp add: set_trace_def set_debug_def store_def)
  moreover have "load (set_trace A True (set_debug A 5 s)) (B, x) = load s (B, x)"
    if "A \<noteq> B" for x
    using that by (simp add: set_trace_def set_debug_def load_store)
  moreover have "load (set_trace A True (set_debug A 5
        (thread_start n c0 d0 B (thread_start n c0 d0 A s)))) (B, x) = zero_init n c0 d0 x"
    if "A \<noteq> B" for x
    using that by (simp add: set_trace_def set_debug_def load_store load_thread_start)
  ultimately show ?thesis
    by (simp add: Let_def get_debug_ptr_def get_trace_ptr_def set_trace_def set_debug_def
        load_store)
qed

text \<open>
  Claim C5 on threads 0 and 1: thread 0 makes the two calls, thread 1 none.
\<close>

theorem thread_isolation_witness:
  "filter (\<lambda>(t, c). t = 1) [(0 :: tid, Set_debug 5), (0, Set_trace True)]
      = filter (\<lambda>(t, c). t = 1) ([] :: (tid \<times> (unit, unit) call) list)
   \<and> (0 :: tid) \<noteq> 1
   \<and> load (run [(0, Set_debug 5), (0, Set_trace True)] (\<lambda>t. zero_init 2 () ()))
        (get_debug_ptr 1) = UInt 0
   \<and> load (run [(0, Set_debug 5), (0, Set_trace True)] (\<lambda>t. zero_init 2 () ()))
        (get_trace_ptr 1) = Bool False
   \<and> load (run [(0, Set_debug 5), (0, Set_trace True)] (\<lambda>t. zero_init 2 () ()))
        (get_debug_ptr 0) = UInt 5
   \<and> load (run [(0, Set_debug 5), (0, Set_trace True)] (\<lambda>t. zero_init 2 () ()))
        (get_trace_ptr 0) = Bool True
   \<and> load (set_trace 0 True (set_debug 0 5
          (thread_start 2 () () 1 (thread_start 2 () () 0 (\<lambda>u x. Bool True)))))
        (get_debug_ptr 1) = UInt 0
   \<and> load (set_trace 0 True (set_debug 0 5
          (thread_start 2 () () 1 (thread_start 2 () () 0 (\<lambda>u x. Bool True)))))
        (get_trace_ptr 1) = Bool False"
proof -
  let ?s = "\<lambda>t :: tid. zero_init 2 () ()"
  let ?sched = "[(0 :: tid, Set_debug 5), (0, Set_trace True :: (unit, unit) call)]"
  have f: "filter (\<lambda>(t, c). t = 1) ?sched = filter (\<lambda>(t, c). t = 1) []"
    by simp
  have "?s 1 = ?s 1" by (rule refl)
  with f have "run ?sched ?s 1 = run [] ?s 1"
    by (intro thread_isolation [of 1 ?sched "[]" ?s ?s, THEN conjunct1, THEN mp] conjI)
  then have b: "run ?sched ?s 1 = zero_init 2 () ()"
    by simp
  have a: "load (run ?sched ?s) (get_debug_ptr 0) = UInt 5"
    "load (run ?sched ?s) (get_trace_ptr 0) = Bool True"
    by (simp_all add: set_trace_def set_debug_def get_debug_ptr_def get_trace_ptr_def load_store)
  from b have "load (run ?sched ?s) (get_debug_ptr 1) = UInt 0"
    "load (run ?sched ?s) (get_trace_ptr 1) = Bool False"
    by (simp_all only: load_def get_debug_ptr_def get_trace_ptr_def fst_conv snd_conv
        zero_init.simps)
  moreover have ne: "(0 :: tid) \<noteq> 1"
    by simp
  moreover note started =
    thread_isolation [of 1 "[]" "[]" "\<lambda>u x. Bool True" "\<lambda>u x. Bool True" 0 "\<lambda>u x. Bool True"
      2 "()" "()", THEN conjunct2, THEN conjunct2, THEN mp, OF ne, unfolded Let_def]
  moreover from started
  have "load (set_trace 0 True (set_debug 0 5
          (thread_start 2 () () 1 (thread_start 2 () () 0 (\<lambda>u x. Bool True)))))
        (get_debug_ptr 1) = UInt 0"
    by (elim conjE)
  moreover from started
  have "load (set_trace 0 True (set_debug 0 5
          (thread_start 2 () () 1 (thread_start 2 () () 0 (\<lambda>u x. Bool True)))))
        (get_trace_ptr 1) = Bool False"
    by (elim conjE)
  ultimately show ?thesis
    using f a by (intro conjI)
qed

text \<open>
  Claim C6. On one thread, two consecutive calls of \<^verbatim>\<open>get_cube\<close> return the same
  address, that of the thread's own \<^verbatim>\<open>cube\<close>, so a value written through the first
  pointer is read through the second; the same holds for \<^verbatim>\<open>get_cdata\<close> and
  \<^verbatim>\<open>cdata\<close>.
\<close>

theorem getters_alias_same_storage:
  "(let p1 = get_cube t; p2 = get_cube t
    in p1 = p2 \<and> load (store s p1 v) p2 = v \<and> store s p1 v t cube = v)
   \<and> (let q1 = get_cdata t; q2 = get_cdata t
    in q1 = q2 \<and> load (store s q1 w) q2 = w \<and> store s q1 w t cdata = w)"
  by (simp add: load_store Let_def) (simp add: store_def get_cube_def get_cdata_def)

text \<open>
  Claim C9. Each of the eleven setters stores its argument, whatever it is, in its own
  flag of the calling thread and changes nothing else: reading any address \<open>q\<close> (any
  object of any thread: the other flags, the cube descriptor and data, the saved slots,
  the timing arrays, the filename) gives the new value at the flag and the old contents
  everywhere else.
\<close>

theorem setters_store_once:
  "load (set_debug t x s) q = (if q = get_debug_ptr t then UInt x else load s q)
   \<and> load (set_verbose_debug t b s) q = (if q = get_verbose_debug_ptr t then Bool b else load s q)
   \<and> load (set_trace t b s) q = (if q = get_trace_ptr t then Bool b else load s q)
   \<and> load (set_summary t b s) q = (if q = get_summary_ptr t then Bool b else load s q)
   \<and> load (set_remove_essential t b s) q = (if q = get_remove_essential_ptr t then Bool b else load s q)
   \<and> load (set_force_irredundant t b s) q = (if q = get_force_irredundant_ptr t then Bool b else load s q)
   \<and> load (set_unwrap_onset t b s) q = (if q = get_unwrap_onset_ptr t then Bool b else load s q)
   \<and> load (set_single_expand t b s) q = (if q = get_single_expand_ptr t then Bool b else load s q)
   \<and> load (set_use_super_gasp t b s) q = (if q = get_use_super_gasp_ptr t then Bool b else load s q)
   \<and> load (set_use_random_order t b s) q = (if q = get_use_random_order_ptr t then Bool b else load s q)
   \<and> load (set_skip_make_sparse t b s) q = (if q = get_skip_make_sparse_ptr t then Bool b else load s q)"
  by (simp add: getter_defs setter_defs load_store)

end
